theory Spec2Isabelle
  imports Main "HOL-Library.Word" "HOL-Library.Sublist"
begin

unbundle bit_operations_syntax

section \<open>JavaScript strings and the string operations the program uses\<close>

text \<open>
  A JavaScript string is a sequence of 16-bit code units: \<open>length\<close> counts code units
  and \<open>charCodeAt\<close> returns one of them, a number from 0 to 65535.
\<close>

type_synonym jsstring = "16 word list"

text \<open>A string literal of the source (all of them are ASCII).\<close>

definition lit :: "string \<Rightarrow> jsstring" where
  "lit s = map (\<lambda>c. of_nat (of_char c)) s"

text \<open>The class \<open>\d\<close> of a regular expression without the unicode flag: \<open>0\<close> to \<open>9\<close>.\<close>

definition isDigit :: "16 word \<Rightarrow> bool" where
  "isDigit c = (48 \<le> c \<and> c \<le> 57)"

text \<open>\<open>value.replace(/[^\d]/g, '')\<close>: every code unit that is not a digit is removed.\<close>

definition stripNonDigits :: "jsstring \<Rightarrow> jsstring" where
  "stripNonDigits v = filter isDigit v"

text \<open>\<open>s.startsWith(p)\<close>.\<close>

definition startsWith :: "jsstring \<Rightarrow> jsstring \<Rightarrow> bool" where
  "startsWith s p = (take (length p) s = p)"

text \<open>\<open>/^\d{n}$/.test(s)\<close>: the whole string is exactly \<open>n\<close> digits.\<close>

definition digitsExactly :: "nat \<Rightarrow> jsstring \<Rightarrow> bool" where
  "digitsExactly n s = (length s = n \<and> list_all isDigit s)"

text \<open>
  The digit of \<open>Number.prototype.toString(radix)\<close> for a digit value below 36:
  \<open>0\<close> to \<open>9\<close>, then lower-case \<open>a\<close> to \<open>z\<close>.
\<close>

definition digitChar :: "nat \<Rightarrow> 16 word" where
  "digitChar d = (if d < 10 then of_nat (48 + d) else of_nat (87 + d))"

text \<open>
  The digits of a non-negative integer in radix \<open>r\<close>, most significant first, without
  leading zeros (\<open>0\<close> is the one digit \<open>0\<close>). The source calls it with the radices
  10 and 16 only.
\<close>

function natToString :: "nat \<Rightarrow> nat \<Rightarrow> jsstring" where
  "natToString r n =
     (if n < r \<or> r < 2 then [digitChar n]
      else natToString r (n div r) @ [digitChar (n mod r)])"
  by pat_completeness auto
termination
  by (relation "measure (\<lambda>(r, n). n)") auto

declare natToString.simps [simp del]

text \<open>
  \<open>x.toString(radix)\<close> for an integer \<open>x\<close>: a negative number is a minus sign
  followed by the digits of its absolute value.
\<close>

definition numToString :: "nat \<Rightarrow> int \<Rightarrow> jsstring" where
  "numToString r x =
     (if x < 0 then of_nat 45 # natToString r (nat (- x)) else natToString r (nat x))"

text \<open>
  \<open>s.toUpperCase()\<close> on the ASCII range: \<open>a\<close> to \<open>z\<close> become \<open>A\<close> to \<open>Z\<close> and every
  other ASCII code unit is kept. The source applies it to the result of
  \<open>toString(16)\<close> only, which is ASCII.
\<close>

definition upperChar :: "16 word \<Rightarrow> 16 word" where
  "upperChar c = (if 97 \<le> c \<and> c \<le> 122 then c - 32 else c)"

definition toUpperCase :: "jsstring \<Rightarrow> jsstring" where
  "toUpperCase s = map upperChar s"

text \<open>
  \<open>s.padStart(n, p)\<close> for a one-character pad string: \<open>s\<close> itself when it already has
  \<open>n\<close> code units or more (the subtraction on \<open>nat\<close> stops at 0).
\<close>

definition padStart :: "nat \<Rightarrow> 16 word \<Rightarrow> jsstring \<Rightarrow> jsstring" where
  "padStart n p s = replicate (n - length s) p @ s"

text \<open>\<open>v.length.toString().padStart(2, '0')\<close>, the length prefix the builder emits.\<close>

definition lengthPrefix :: "jsstring \<Rightarrow> jsstring" where
  "lengthPrefix v = padStart 2 48 (numToString 10 (int (length v)))"

section \<open>utils/crc16.ts\<close>

text \<open>
  The bitwise operators of JavaScript work on 32-bit integers, so the variable \<open>crc\<close>
  is a 32-bit word. One round of the inner loop:
  \<^verbatim>\<open>if (crc & 0x8000) { crc = (crc << 1) ^ polynomial; } else { crc = crc << 1; }
  crc &= 0xFFFF;\<close>
\<close>

definition polynomial :: "32 word" where
  "polynomial = 0x1021"

definition crcShift :: "32 word \<Rightarrow> 32 word" where
  "crcShift crc =
     (let crc = (if crc AND 0x8000 \<noteq> 0 then push_bit 1 crc XOR polynomial
                 else push_bit 1 crc)
      in crc AND 0xFFFF)"

text \<open>The inner loop \<open>for (let j = 0; j < 8; j++)\<close>, by the number of rounds left.\<close>

primrec crcInner :: "nat \<Rightarrow> 32 word \<Rightarrow> 32 word" where
  "crcInner 0 crc = crc"
| "crcInner (Suc k) crc = crcInner k (crcShift crc)"

text \<open>
  The outer loop over the code units of \<open>str\<close>:
  \<^verbatim>\<open>crc ^= str.charCodeAt(i) << 8;\<close> and then the inner loop.
\<close>

fun crcLoop :: "32 word \<Rightarrow> jsstring \<Rightarrow> 32 word" where
  "crcLoop crc [] = crc"
| "crcLoop crc (c # cs) = crcLoop (crcInner 8 (crc XOR push_bit 8 (ucast c))) cs"

text \<open>
  \<^verbatim>\<open>return crc.toString(16).toUpperCase().padStart(4, '0');\<close>
  The number that \<open>crc\<close> holds is the signed reading of the 32-bit word.
\<close>

definition crcRegister :: "jsstring \<Rightarrow> 32 word" where
  "crcRegister str = crcLoop 0xFFFF str"

definition crc16ccitt :: "jsstring \<Rightarrow> jsstring" where
  "crc16ccitt str = padStart 4 48 (toUpperCase (numToString 16 (sint (crcRegister str))))"

section \<open>App.tsx\<close>

datatype PaymentType = Paybill | Till | Phone

text \<open>
  The state of the component, which the three functions below read as free variables
  of their closures.
\<close>

record app_state =
  paymentType :: PaymentType
  number :: jsstring
  accountNumber :: jsstring
  businessName :: jsstring
  error :: "jsstring option"

text \<open>
  \<open>validateNumber\<close>. The three patterns for a phone number are
  \<open>/^254[7]\d{8}$/\<close>, \<open>/^0[7]\d{8}$/\<close> and \<open>/^[7]\d{8}$/\<close>. The \<open>default\<close> branch of
  the \<open>switch\<close> is outside the type \<open>PaymentType\<close>.
\<close>

definition validateNumber :: "'a app_state_scheme \<Rightarrow> jsstring \<Rightarrow> bool" where
  "validateNumber st v =
     (if v = [] then False
      else let cleaned = stripNonDigits v in
        case paymentType st of
          Paybill \<Rightarrow> digitsExactly 6 cleaned
        | Till \<Rightarrow> digitsExactly 5 cleaned \<or> digitsExactly 6 cleaned
        | Phone \<Rightarrow>
            if startsWith cleaned (lit ''254'') then
              startsWith cleaned (lit ''2547'') \<and> digitsExactly 8 (drop 4 cleaned)
            else if startsWith cleaned (lit ''0'') then
              startsWith cleaned (lit ''07'') \<and> digitsExactly 8 (drop 2 cleaned)
            else
              startsWith cleaned (lit ''7'') \<and> digitsExactly 8 (drop 1 cleaned))"

text \<open>\<open>formatNumber\<close>; \<open>cleaned.slice(1)\<close> drops the first code unit.\<close>

definition formatNumber :: "'a app_state_scheme \<Rightarrow> jsstring \<Rightarrow> jsstring" where
  "formatNumber st v =
     (let cleaned = stripNonDigits v in
      if paymentType st = Phone then
        if startsWith cleaned (lit ''254'') then cleaned
        else if startsWith cleaned (lit ''0'') then lit ''254'' @ drop 1 cleaned
        else if length cleaned = 9 then lit ''254'' @ cleaned
        else cleaned
      else cleaned)"

text \<open>
  The merchant account information template of \<open>generateQRValue\<close>, the value of tag 26:
  the variable \<open>merchantInfo\<close> after the \<open>if\<close> on the payment type.
\<close>

definition merchantInfo :: "'a app_state_scheme \<Rightarrow> jsstring \<Rightarrow> jsstring" where
  "merchantInfo st formattedNumber =
     (let mi = [];
          mi = mi @ (lit ''00'' @ lit ''14'' @ lit ''A000000677010111'')
      in if paymentType st = Paybill then
           let mi = mi @ (lit ''01'' @ lengthPrefix formattedNumber @ formattedNumber)
           in if accountNumber st \<noteq> [] then
                mi @ (lit ''02'' @ lengthPrefix (accountNumber st) @ accountNumber st)
              else mi
         else if paymentType st = Till then
           mi @ (lit ''03'' @ lengthPrefix formattedNumber @ formattedNumber)
         else
           mi @ (lit ''04'' @ lengthPrefix formattedNumber @ formattedNumber))"

text \<open>
  The text that the checksum is computed over: the variable \<open>qrText\<close> right after
  \<^verbatim>\<open>qrText += '6304'\<close>.
\<close>

definition qrTextBeforeCrc :: "'a app_state_scheme \<Rightarrow> jsstring" where
  "qrTextBeforeCrc st =
     (let formattedNumber = formatNumber st (number st);
          qrText = lit ''000201'';
          qrText = qrText @ lit ''0102'';
          mi = merchantInfo st formattedNumber;
          qrText = qrText @ (lit ''26'' @ lengthPrefix mi @ mi);
          qrText = qrText @ lit ''5303KES'';
          qrText = qrText @ lit ''5802KE'';
          qrText = (if businessName st \<noteq> [] then
                      qrText @ (lit ''59'' @ lengthPrefix (businessName st) @ businessName st)
                    else qrText)
      in qrText @ lit ''6304'')"

text \<open>
  \<open>generateQRValue\<close>, lines 48 to 97 of the source (the file repeats the end of the
  function after them). The empty string is its answer for a number that is empty or
  not valid. None of the operations in the \<open>try\<close> block throws on strings, so the
  \<open>catch\<close> branch, which returns the empty string too, has no counterpart here.
\<close>

definition generateQRValue :: "'a app_state_scheme \<Rightarrow> jsstring" where
  "generateQRValue st =
     (if number st = [] then []
      else if \<not> validateNumber st (number st) then []
      else let qrText = qrTextBeforeCrc st;
               checksum = crc16ccitt qrText
           in qrText @ checksum)"

section \<open>What the properties are stated with\<close>

subsection \<open>The reference checksum\<close>

text \<open>
  CRC-16/CCITT-FALSE as the specification words it, on bytes and a 16-bit register:
  the register starts at \<open>0xFFFF\<close>; each byte is XORed into the high byte of the
  register; then, eight times, the register is shifted left by one and, when its bit 15
  was set before the shift, XORed with the polynomial \<open>0x1021\<close>. A 16-bit word
  keeps 16 bits by itself. There is no final XOR.
\<close>

definition refShift :: "16 word \<Rightarrow> 16 word" where
  "refShift r = (if bit r 15 then push_bit 1 r XOR 0x1021 else push_bit 1 r)"

fun refLoop :: "16 word \<Rightarrow> 8 word list \<Rightarrow> 16 word" where
  "refLoop r [] = r"
| "refLoop r (b # bs) = refLoop ((refShift ^^ 8) (r XOR push_bit 8 (ucast b))) bs"

definition crc16_ccitt_false :: "8 word list \<Rightarrow> 16 word" where
  "crc16_ccitt_false bs = refLoop 0xFFFF bs"

text \<open>An upper-case hexadecimal digit: \<open>0\<close> to \<open>9\<close> or \<open>A\<close> to \<open>F\<close>.\<close>

definition isUpperHex :: "16 word \<Rightarrow> bool" where
  "isUpperHex c = ((48 \<le> c \<and> c \<le> 57) \<or> (65 \<le> c \<and> c \<le> 70))"

subsection \<open>The accepted forms of a number\<close>

text \<open>
  A subscriber number is nine digits, the first of them \<open>7\<close>. The specification's
  pattern per payment type, on the cleaned digits: six digits for a paybill, five or six
  for a till, and for a phone a subscriber number, bare or after \<open>254\<close> or after
  \<open>0\<close>.
\<close>

definition isSubscriber :: "jsstring \<Rightarrow> bool" where
  "isSubscriber s = (digitsExactly 9 s \<and> startsWith s (lit ''7''))"

fun matchesPattern :: "PaymentType \<Rightarrow> jsstring \<Rightarrow> bool" where
  "matchesPattern Paybill c = digitsExactly 6 c"
| "matchesPattern Till c = (digitsExactly 5 c \<or> digitsExactly 6 c)"
| "matchesPattern Phone c =
     ((startsWith c (lit ''254'') \<and> isSubscriber (drop 3 c))
      \<or> (startsWith c (lit ''0'') \<and> isSubscriber (drop 1 c))
      \<or> isSubscriber c)"

subsection \<open>The fields of a payload\<close>

text \<open>
  A field as the builder writes it: the tag, the length as it is declared in the text,
  and the value. The number that a declared length stands for is read digit by digit.
\<close>

datatype tlv = Field (tag: jsstring) (declared: jsstring) (val: jsstring)

definition serialize :: "tlv \<Rightarrow> jsstring" where
  "serialize f = tag f @ declared f @ val f"

definition decimalValue :: "jsstring \<Rightarrow> nat" where
  "decimalValue s = foldl (\<lambda>a c. 10 * a + (unat c - 48)) 0 s"

text \<open>
  The two fields whose literal the source writes with a length that is not the length of
  the value: \<^verbatim>\<open>'00' + '14' + 'A000000677010111'\<close> declares 14 for 16 characters, and
  \<^verbatim>\<open>'0102'\<close> declares 2 and has no value before the tag \<open>26\<close> starts.
\<close>

definition guidField :: tlv where
  "guidField = Field (lit ''00'') (lit ''14'') (lit ''A000000677010111'')"

definition initiationField :: tlv where
  "initiationField = Field (lit ''01'') (lit ''02'') []"

text \<open>
  The fields that \<open>generateQRValue\<close> appends to \<open>merchantInfo\<close> and to \<open>qrText\<close>,
  one for each literal or concatenation of the source, in its order.
\<close>

definition merchantFields :: "'a app_state_scheme \<Rightarrow> jsstring \<Rightarrow> tlv list" where
  "merchantFields st formattedNumber =
     guidField #
     (if paymentType st = Paybill then
        Field (lit ''01'') (lengthPrefix formattedNumber) formattedNumber #
        (if accountNumber st \<noteq> [] then
           [Field (lit ''02'') (lengthPrefix (accountNumber st)) (accountNumber st)]
         else [])
      else if paymentType st = Till then
        [Field (lit ''03'') (lengthPrefix formattedNumber) formattedNumber]
      else
        [Field (lit ''04'') (lengthPrefix formattedNumber) formattedNumber])"

definition payloadFields :: "'a app_state_scheme \<Rightarrow> tlv list" where
  "payloadFields st =
     (let mi = merchantInfo st (formatNumber st (number st)) in
      [Field (lit ''00'') (lit ''02'') (lit ''01''),
       initiationField,
       Field (lit ''26'') (lengthPrefix mi) mi,
       Field (lit ''53'') (lit ''03'') (lit ''KES''),
       Field (lit ''58'') (lit ''02'') (lit ''KE'')]
      @ (if businessName st \<noteq> [] then
           [Field (lit ''59'') (lengthPrefix (businessName st)) (businessName st)]
         else [])
      @ [Field (lit ''63'') (lit ''04'') (crc16ccitt (qrTextBeforeCrc st))])"

definition emittedFields :: "'a app_state_scheme \<Rightarrow> tlv list" where
  "emittedFields st = payloadFields st @ merchantFields st (formatNumber st (number st))"

text \<open>
  A declared length that is a decimal number equal to the number of characters of the
  value; one that is so in exactly two digits; and one that is so in exactly two digits
  when the value has at most 99 characters and in three or more when it has more.
\<close>

definition declaresLength :: "tlv \<Rightarrow> bool" where
  "declaresLength f =
     (list_all isDigit (declared f) \<and> decimalValue (declared f) = length (val f))"

definition twoDigitLength :: "tlv \<Rightarrow> bool" where
  "twoDigitLength f = (length (declared f) = 2 \<and> declaresLength f)"

definition paddedLength :: "tlv \<Rightarrow> bool" where
  "paddedLength f =
     (declaresLength f \<and>
      (length (val f) \<le> 99 \<longrightarrow> length (declared f) = 2) \<and>
      (99 < length (val f) \<longrightarrow> 3 \<le> length (declared f)))"

subsection \<open>Example inputs\<close>

text \<open>
  The end-to-end scenario of the specification; the same with an account number of 100
  characters and with a business name of 100 characters; and a phone payment.
\<close>

definition st0 :: app_state where
  "st0 = \<lparr>paymentType = Paybill, number = lit ''123456'', accountNumber = lit ''00100'',
          businessName = lit ''Acme'', error = None\<rparr>"

definition stLong :: app_state where
  "stLong = \<lparr>paymentType = Paybill, number = lit ''123456'',
             accountNumber = replicate 100 65, businessName = lit ''Acme'', error = None\<rparr>"

definition stLongName :: app_state where
  "stLongName = \<lparr>paymentType = Paybill, number = lit ''123456'',
                 accountNumber = [], businessName = replicate 100 65, error = None\<rparr>"

definition stPhone :: app_state where
  "stPhone = \<lparr>paymentType = Phone, number = lit ''0712345678'', accountNumber = [],
              businessName = [], error = None\<rparr>"

section \<open>Strings, digits and length prefixes\<close>

lemma length_lit [simp]: "length (lit s) = length s"
  by (simp add: lit_def)

lemma lit_append: "lit (a @ b) = lit a @ lit b"
  by (simp add: lit_def)

lemma stripNonDigits_digits: "list_all isDigit (stripNonDigits v)"
  by (simp add: stripNonDigits_def list_all_iff)

lemma stripNonDigits_id: "list_all isDigit v \<Longrightarrow> stripNonDigits v = v"
  by (simp add: stripNonDigits_def list_all_iff)

lemma digitChar_dec: "d < 10 \<Longrightarrow> isDigit (digitChar d) \<and> unat (digitChar d) = 48 + d"
proof -
  assume d: "d < 10"
  have "unat (of_nat (48 + d) :: 16 word) = (48 + d) mod 2 ^ LENGTH(16)"
    by (rule unat_of_nat)
  then have u: "unat (of_nat (48 + d) :: 16 word) = 48 + d"
    using d by simp
  have "(48 :: 16 word) \<le> of_nat (48 + d)" "(of_nat (48 + d) :: 16 word) \<le> 57"
    using u d by (simp_all add: word_le_nat_alt)
  then show ?thesis using d u by (simp add: digitChar_def isDigit_def)
qed

lemma natToString10_digits: "list_all isDigit (natToString 10 n)"
proof (induction "10 :: nat" n rule: natToString.induct)
  case (1 n)
  show ?case
  proof (cases "n < 10")
    case True
    then show ?thesis by (simp add: natToString.simps [of 10 n] digitChar_dec)
  next
    case False
    then have "list_all isDigit (natToString 10 (n div 10))" using 1 by simp
    moreover have "isDigit (digitChar (n mod 10))" by (simp add: digitChar_dec)
    ultimately show ?thesis using False by (simp add: natToString.simps [of 10 n])
  qed
qed

lemma decimalValue_snoc: "decimalValue (s @ [c]) = 10 * decimalValue s + (unat c - 48)"
  by (simp add: decimalValue_def)

lemma decimalValue_natToString: "decimalValue (natToString 10 n) = n"
proof (induction "10 :: nat" n rule: natToString.induct)
  case (1 n)
  show ?case
  proof (cases "n < 10")
    case True
    then show ?thesis
      by (simp add: natToString.simps [of 10 n] digitChar_dec decimalValue_def)
  next
    case False
    then have "decimalValue (natToString 10 (n div 10)) = n div 10" using 1 by simp
    then show ?thesis using False
      by (simp add: natToString.simps [of 10 n] decimalValue_snoc digitChar_dec)
  qed
qed

lemma decimalValue_zeros: "decimalValue (replicate k 48 @ s) = decimalValue s"
proof -
  have "foldl (\<lambda>a c. 10 * a + (unat (c :: 16 word) - 48)) 0 (replicate k 48) = 0"
    by (induction k) simp_all
  then show ?thesis by (simp add: decimalValue_def)
qed

lemma length_natToString10:
  "length (natToString 10 n) = (if n < 10 then 1 else Suc (length (natToString 10 (n div 10))))"
  by (simp add: natToString.simps [of 10 n])

lemma natToString_nonempty: "natToString r n \<noteq> []"
  by (simp add: natToString.simps [of r n])

lemma length_natToString10_small: "n < 100 \<Longrightarrow> length (natToString 10 n) \<le> 2"
  by (simp add: length_natToString10 [of n] length_natToString10 [of "n div 10"])

lemma length_natToString10_big: "100 \<le> n \<Longrightarrow> 3 \<le> length (natToString 10 n)"
proof -
  assume n: "100 \<le> n"
  then have "10 \<le> n div 10" by simp
  then have "\<not> n div 10 < 10" "\<not> n < 10"
    using n by simp_all
  moreover have "length (natToString 10 (n div 10 div 10)) \<noteq> 0"
    by (simp add: natToString_nonempty)
  ultimately show ?thesis
    by (simp add: length_natToString10 [of n] length_natToString10 [of "n div 10"] Suc_le_eq)
qed

lemma lengthPrefix_eq: "lengthPrefix v = padStart 2 48 (natToString 10 (length v))"
  by (simp add: lengthPrefix_def numToString_def)

lemma zeros_digits: "list_all isDigit (replicate k 48)"
  by (induction k) (simp_all add: isDigit_def)

lemma lengthPrefix_digits: "list_all isDigit (lengthPrefix v)"
  by (simp add: lengthPrefix_eq padStart_def natToString10_digits zeros_digits)

lemma lengthPrefix_value: "decimalValue (lengthPrefix v) = length v"
  by (simp add: lengthPrefix_eq padStart_def decimalValue_zeros decimalValue_natToString)

lemma lengthPrefix_two: "length v \<le> 99 \<Longrightarrow> length (lengthPrefix v) = 2"
proof -
  assume "length v \<le> 99"
  then have "length (natToString 10 (length v)) \<le> 2" by (simp add: length_natToString10_small)
  then show ?thesis by (simp add: lengthPrefix_eq padStart_def)
qed

lemma lengthPrefix_long: "99 < length v \<Longrightarrow> 3 \<le> length (lengthPrefix v)"
proof -
  assume "99 < length v"
  then have "3 \<le> length (natToString 10 (length v))" by (simp add: length_natToString10_big)
  then show ?thesis by (simp add: lengthPrefix_eq padStart_def)
qed

section \<open>The checksum and its reference\<close>

lemma mask16: "(0xFFFF :: 32 word) = mask 16"
  by (simp add: mask_eq_exp_minus_1)

lemma test15: "((w :: 32 word) AND 0x8000 \<noteq> 0) = bit w 15"
proof -
  have "(0x8000 :: 32 word) = push_bit 15 1" by simp
  then show ?thesis
    by (metis and_exp_eq_0_iff_not_bit push_bit_of_1)
qed

lemma shift_xor_low16:
  "(push_bit k w XOR p) AND mask 16 = ucast (push_bit k (ucast w :: 16 word) XOR ucast p)"
  for w p :: "32 word"
  by (rule bit_word_eqI) (auto simp add: bit_simps)

lemma shift_low16:
  "(push_bit k w) AND mask 16 = ucast (push_bit k (ucast w :: 16 word))"
  for w :: "32 word"
  by (rule bit_word_eqI) (auto simp add: bit_simps)

lemma bit15_ucast: "bit (ucast (w :: 32 word) :: 16 word) 15 = bit w 15"
  by (simp add: bit_simps)

lemma poly_ucast: "(ucast (0x1021 :: 32 word) :: 16 word) = 0x1021"
  by simp

lemma crcShift_ref: "crcShift w = ucast (refShift (ucast w))"
proof (cases "bit w 15")
  case True
  then show ?thesis
    unfolding crcShift_def refShift_def Let_def polynomial_def test15 mask16 bit15_ucast
    using shift_xor_low16 [of 1 w "0x1021"] by (simp only: poly_ucast if_True)
next
  case False
  then show ?thesis
    unfolding crcShift_def refShift_def Let_def polynomial_def test15 mask16 bit15_ucast
    using shift_low16 [of 1 w] by (simp only: if_False)
qed

lemma ucast_16_32_16: "(ucast (ucast (r :: 16 word) :: 32 word) :: 16 word) = r"
  by (rule bit_word_eqI) (auto simp add: bit_simps)

lemma crcInner_ref: "crcInner (Suc k) w = ucast ((refShift ^^ Suc k) (ucast w))"
proof (induction k arbitrary: w)
  case 0
  show ?case by (simp add: crcShift_ref)
next
  case (Suc k)
  have "crcInner (Suc (Suc k)) w = crcInner (Suc k) (crcShift w)" by simp
  also have "\<dots> = ucast ((refShift ^^ Suc k) (ucast (crcShift w)))" by (rule Suc.IH)
  also have "ucast (crcShift w) = refShift (ucast w)"
    by (simp only: crcShift_ref ucast_16_32_16)
  also have "(refShift ^^ Suc k) (refShift (ucast w)) = (refShift ^^ Suc (Suc k)) (ucast w)"
    by (simp only: funpow_Suc_right o_apply)
  finally show ?case .
qed

lemma crcInner8_ref: "crcInner 8 w = ucast ((refShift ^^ 8) (ucast w))"
  using crcInner_ref [of 7 w] by simp

lemma xor_byte_low16:
  "(ucast ((ucast (r :: 16 word) :: 32 word) XOR push_bit 8 (ucast (c :: 16 word))) :: 16 word)
     = r XOR push_bit 8 (ucast (ucast c :: 8 word))"
  by (rule bit_word_eqI) (auto simp add: bit_simps)

lemma crcLoop_ref: "crcLoop (ucast r) s = ucast (refLoop r (map ucast s))"
proof (induction s arbitrary: r)
  case Nil
  show ?case by simp
next
  case (Cons c cs)
  show ?case
    by (simp only: crcLoop.simps list.map refLoop.simps crcInner8_ref xor_byte_low16 Cons.IH)
qed

lemma crcRegister_ref: "crcRegister s = ucast (crc16_ccitt_false (map ucast s))"
proof -
  have "(0xFFFF :: 32 word) = ucast (0xFFFF :: 16 word)" by simp
  then show ?thesis
    unfolding crcRegister_def crc16_ccitt_false_def by (simp only: crcLoop_ref)
qed

lemma uint_ucast16: "uint (ucast (r :: 16 word) :: 32 word) = uint r"
  by (simp add: uint_up_ucast is_up)

lemma sint_ucast16: "sint (ucast (r :: 16 word) :: 32 word) = uint r"
proof -
  have b: "uint r < 2 ^ 16" using uint_bounded [of r] by simp
  have "uint r < 2 ^ 31" using b by simp
  moreover have "- (2 ^ 31) \<le> uint r"
    by (rule order_trans [of _ 0]) simp_all
  ultimately have "signed_take_bit 31 (uint r) = uint r"
    by (simp add: signed_take_bit_int_eq_self)
  then show ?thesis by (simp add: sint_uint uint_ucast16)
qed

lemma crc16ccitt_ref:
  "crc16ccitt s =
     padStart 4 48 (toUpperCase (natToString 16 (unat (crc16_ccitt_false (map ucast s)))))"
  by (simp add: crc16ccitt_def crcRegister_ref sint_ucast16 numToString_def)

lemma toUpperCase_map: "toUpperCase s = map upperChar s"
  by (simp add: toUpperCase_def)

lemma hexdigit_all: "list_all (\<lambda>d. isUpperHex (upperChar (digitChar d))) [0..<16]"
  by code_simp

lemma hexdigit_upper: "d < 16 \<Longrightarrow> isUpperHex (upperChar (digitChar d))"
  using hexdigit_all by (simp add: list_all_iff)

lemma natToString16_upper: "list_all isUpperHex (toUpperCase (natToString 16 n))"
proof (induction "16 :: nat" n rule: natToString.induct)
  case (1 n)
  show ?case
  proof (cases "n < 16")
    case True
    then show ?thesis by (simp add: natToString.simps [of 16 n] toUpperCase_map hexdigit_upper)
  next
    case False
    then have "list_all isUpperHex (toUpperCase (natToString 16 (n div 16)))" using 1 by simp
    moreover have "isUpperHex (upperChar (digitChar (n mod 16)))" by (simp add: hexdigit_upper)
    ultimately show ?thesis using False
      by (simp add: natToString.simps [of 16 n] toUpperCase_map)
  qed
qed

lemma natToString16_length: "n < 16 ^ Suc k \<Longrightarrow> length (natToString 16 n) \<le> Suc k"
proof (induction k arbitrary: n)
  case 0
  then show ?case by (simp add: natToString.simps [of 16 n])
next
  case (Suc k)
  show ?case
  proof (cases "n < 16")
    case True
    then show ?thesis by (simp add: natToString.simps [of 16 n])
  next
    case False
    have "n div 16 < 16 ^ Suc k" using Suc.prems by (simp add: less_mult_imp_div_less)
    then have "length (natToString 16 (n div 16)) \<le> Suc k" by (rule Suc.IH)
    then show ?thesis using False by (simp add: natToString.simps [of 16 n])
  qed
qed

lemma unat16_bound: "unat (r :: 16 word) < 16 ^ Suc 3"
  using unsigned_less [of r, where 'a = nat] by simp

lemma isUpperHex_zeros: "list_all isUpperHex (replicate k 48)"
  by (induction k) (simp_all add: isUpperHex_def)

lemma crc16ccitt_shape: "length (crc16ccitt s) = 4 \<and> list_all isUpperHex (crc16ccitt s)"
proof -
  let ?n = "unat (crc16_ccitt_false (map ucast s))"
  have "length (natToString 16 ?n) \<le> Suc 3"
    by (rule natToString16_length) (rule unat16_bound)
  then have "length (toUpperCase (natToString 16 ?n)) \<le> 4" by (simp add: toUpperCase_map)
  then have "length (padStart 4 48 (toUpperCase (natToString 16 ?n))) = 4"
    by (simp add: padStart_def)
  moreover have "list_all isUpperHex (padStart 4 48 (toUpperCase (natToString 16 ?n)))"
    by (simp add: padStart_def isUpperHex_zeros natToString16_upper)
  ultimately show ?thesis by (simp only: crc16ccitt_ref)
qed

lemma byte_roundtrip: "(c :: 16 word) \<le> 255 \<Longrightarrow> ucast (ucast c :: 8 word) = c"
proof -
  assume "c \<le> 255"
  then have "unat c < 2 ^ 8" by (simp add: word_le_nat_alt)
  then have "take_bit 8 (unat c) = unat c" by (simp only: take_bit_nat_eq_self)
  then show ?thesis
    by (simp add: word_eq_iff_unsigned [where ?'a = nat] unsigned_ucast_eq unsigned_take_bit_eq)
qed

lemma bytes_roundtrip:
  "list_all (\<lambda>c. c \<le> 255) s \<Longrightarrow> map ucast (map ucast s :: 8 word list) = (s :: jsstring)"
  by (induction s) (simp_all add: byte_roundtrip)

lemma crcInner8:
  "crcInner 8 w =
     crcShift (crcShift (crcShift (crcShift (crcShift (crcShift (crcShift (crcShift w)))))))"
  by (simp add: eval_nat_numeral)

section \<open>Validation and normalisation\<close>

lemmas validate_eval =
  validateNumber_def stripNonDigits_def isDigit_def digitsExactly_def startsWith_def lit_def

lemma validateNumber_nonempty: "validateNumber st v \<Longrightarrow> v \<noteq> []"
  by (cases "v = []") (simp_all add: validateNumber_def)

lemma startsWith_Nil: "startsWith s []"
  by (simp add: startsWith_def)

lemma startsWith_Cons:
  "startsWith s (x # p) = (case s of [] \<Rightarrow> False | y # r \<Rightarrow> y = x \<and> startsWith r p)"
  by (cases s) (auto simp add: startsWith_def)

lemma phone_pattern:
  "(if startsWith c (lit ''254'') then
      startsWith c (lit ''2547'') \<and> digitsExactly 8 (drop 4 c)
    else if startsWith c (lit ''0'') then
      startsWith c (lit ''07'') \<and> digitsExactly 8 (drop 2 c)
    else startsWith c (lit ''7'') \<and> digitsExactly 8 (drop 1 c))
   = matchesPattern Phone c"
  by (auto simp add: lit_def startsWith_Cons startsWith_Nil digitsExactly_def isSubscriber_def
      isDigit_def split: list.splits)

lemma validateNumber_pattern:
  "validateNumber st v = (v \<noteq> [] \<and> matchesPattern (paymentType st) (stripNonDigits v))"
  by (cases "paymentType st") (simp_all add: validateNumber_def Let_def phone_pattern)

lemma lit254_digits: "list_all isDigit (lit ''254'')"
  by (simp add: lit_def isDigit_def)

lemma startsWith_append: "startsWith (p @ s) p"
  by (simp add: startsWith_def)

lemma drop_digits: "list_all isDigit s \<Longrightarrow> list_all isDigit (drop k s)"
  by (auto simp add: list_all_iff dest: in_set_dropD)

lemma formatNumber_digits: "list_all isDigit (formatNumber st v)"
  by (simp add: formatNumber_def Let_def stripNonDigits_digits lit254_digits drop_digits)

lemma formatNumber_fixed:
  "list_all isDigit c \<Longrightarrow> paymentType st = Phone \<longrightarrow> startsWith c (lit ''254'') \<or>
     (\<not> startsWith c (lit ''0'') \<and> length c \<noteq> 9) \<Longrightarrow> formatNumber st c = c"
  by (auto simp add: formatNumber_def Let_def stripNonDigits_id)

lemma formatNumber_idem: "formatNumber st (formatNumber st v) = formatNumber st v"
proof (cases "paymentType st = Phone")
  case False
  then show ?thesis by (simp add: formatNumber_fixed formatNumber_digits)
next
  case True
  let ?c = "stripNonDigits v"
  have d: "list_all isDigit ?c" by (rule stripNonDigits_digits)
  consider (a) "startsWith ?c (lit ''254'')"
    | (b) "\<not> startsWith ?c (lit ''254'')" "startsWith ?c (lit ''0'')"
    | (c) "\<not> startsWith ?c (lit ''254'')" "\<not> startsWith ?c (lit ''0'')" "length ?c = 9"
    | (d) "\<not> startsWith ?c (lit ''254'')" "\<not> startsWith ?c (lit ''0'')" "length ?c \<noteq> 9"
    by blast
  then show ?thesis
  proof cases
    case a
    then have "formatNumber st v = ?c" using True by (simp add: formatNumber_def)
    then show ?thesis using a d by (simp add: formatNumber_fixed)
  next
    case b
    then have "formatNumber st v = lit ''254'' @ drop 1 ?c" using True
      by (simp add: formatNumber_def)
    then show ?thesis using d
      by (simp add: formatNumber_fixed startsWith_append lit254_digits drop_digits)
  next
    case c
    then have "formatNumber st v = lit ''254'' @ ?c" using True by (simp add: formatNumber_def)
    then show ?thesis using d
      by (simp add: formatNumber_fixed startsWith_append lit254_digits)
  next
    case d
    then have "formatNumber st v = ?c" using True by (simp add: formatNumber_def)
    then show ?thesis using d \<open>list_all isDigit ?c\<close> by (simp add: formatNumber_fixed)
  qed
qed

lemma subscriber_digits: "isSubscriber s \<Longrightarrow> list_all isDigit s \<and> length s = 9"
  by (simp add: isSubscriber_def digitsExactly_def)

lemma subscriber_first: "isSubscriber s \<Longrightarrow> \<exists>t. s = 55 # t"
  by (cases s) (simp_all add: isSubscriber_def digitsExactly_def startsWith_def lit_def)

section \<open>The payload builder\<close>

lemma qrTextBeforeCrc_nonempty: "qrTextBeforeCrc st \<noteq> []"
  by (simp add: qrTextBeforeCrc_def Let_def lit_def)

lemma generateQRValue_valid:
  "validateNumber st (number st) \<Longrightarrow>
   generateQRValue st = qrTextBeforeCrc st @ crc16ccitt (qrTextBeforeCrc st)"
  using validateNumber_nonempty [of st "number st"]
  by (simp add: generateQRValue_def Let_def)

lemma validateNumber_reads:
  "paymentType s1 = paymentType s2 \<Longrightarrow> validateNumber s1 v = validateNumber s2 v"
  unfolding validateNumber_def by (simp add: Let_def cong: if_cong)

lemma formatNumber_reads:
  "paymentType s1 = paymentType s2 \<Longrightarrow> formatNumber s1 v = formatNumber s2 v"
  unfolding formatNumber_def by (simp add: Let_def cong: if_cong)

lemma merchantInfo_reads:
  "paymentType s1 = paymentType s2 \<Longrightarrow> accountNumber s1 = accountNumber s2 \<Longrightarrow>
   merchantInfo s1 f = merchantInfo s2 f"
  unfolding merchantInfo_def by (simp add: Let_def cong: if_cong)

lemma qrTextBeforeCrc_reads:
  assumes "paymentType s1 = paymentType s2" and "number s1 = number s2"
    and "accountNumber s1 = accountNumber s2" and "businessName s1 = businessName s2"
  shows "qrTextBeforeCrc s1 = qrTextBeforeCrc s2"
  unfolding qrTextBeforeCrc_def
  using assms formatNumber_reads [of s1 s2] merchantInfo_reads [of s1 s2]
  by (simp add: Let_def cong: if_cong)

lemma merchantInfo_fields:
  "merchantInfo st f = concat (map serialize (merchantFields st f))"
  by (simp add: merchantInfo_def merchantFields_def serialize_def guidField_def Let_def)

lemma qrTextBeforeCrc_fields:
  "qrTextBeforeCrc st @ crc16ccitt (qrTextBeforeCrc st) = concat (map serialize (payloadFields st))"
  by (simp add: qrTextBeforeCrc_def payloadFields_def serialize_def initiationField_def Let_def
      lit_append [symmetric])

lemma generateQRValue_fields:
  "validateNumber st (number st) \<Longrightarrow>
   generateQRValue st = concat (map serialize (payloadFields st))"
  by (simp only: generateQRValue_valid qrTextBeforeCrc_fields)

lemma paddedLength_computed: "paddedLength (Field t (lengthPrefix v) v)"
  by (simp add: paddedLength_def declaresLength_def lengthPrefix_digits lengthPrefix_value
      lengthPrefix_long lengthPrefix_two)

lemma paddedLength_literals:
  "paddedLength (Field (lit ''00'') (lit ''02'') (lit ''01''))"
  "paddedLength (Field (lit ''53'') (lit ''03'') (lit ''KES''))"
  "paddedLength (Field (lit ''58'') (lit ''02'') (lit ''KE''))"
  by (simp_all add: paddedLength_def declaresLength_def lit_def isDigit_def decimalValue_def)

lemma paddedLength_crc: "paddedLength (Field (lit ''63'') (lit ''04'') (crc16ccitt s))"
  using crc16ccitt_shape [of s]
  by (simp add: paddedLength_def declaresLength_def lit_def isDigit_def decimalValue_def)

lemma merchantFields_padded:
  "list_all (\<lambda>f. f = guidField \<or> f = initiationField \<or> paddedLength f) (merchantFields st f)"
  by (simp add: merchantFields_def paddedLength_computed)

lemma payloadFields_padded:
  "list_all (\<lambda>f. f = guidField \<or> f = initiationField \<or> paddedLength f) (payloadFields st)"
  by (simp add: payloadFields_def Let_def paddedLength_computed paddedLength_literals
      paddedLength_crc)

lemma guidField_wrong: "\<not> twoDigitLength guidField"
  by (simp add: twoDigitLength_def declaresLength_def guidField_def lit_def decimalValue_def)

lemma initiationField_wrong: "\<not> twoDigitLength initiationField"
  by (simp add: twoDigitLength_def declaresLength_def initiationField_def lit_def decimalValue_def)

lemma guidField_emitted: "guidField \<in> set (emittedFields st)"
  by (simp add: emittedFields_def merchantFields_def)

subsection \<open>The example inputs\<close>

lemma stLong_valid: "validateNumber stLong (number stLong)"
  by (simp add: stLong_def validate_eval)

lemma stLong_prefix: "lengthPrefix (accountNumber stLong) = lit ''100''"
  by (simp add: stLong_def lengthPrefix_eq padStart_def natToString.simps lit_def digitChar_def)

lemma st0_valid: "validateNumber st0 (number st0)"
  by (simp add: st0_def validate_eval)

lemma st0_text:
  "qrTextBeforeCrc st0 =
     lit ''000201010226390014A00000067701011101061234560205001005303KES5802KE5904Acme6304''"
  by code_simp

lemma st0_register:
  "crcRegister
     (lit ''000201010226390014A00000067701011101061234560205001005303KES5802KE5904Acme6304'')
   = 0xE1A0"
  by (simp add: crcRegister_def lit_def crcInner8 crcShift_def polynomial_def)

lemma render_E1A0:
  "padStart 4 48 (toUpperCase (numToString 16 (sint (0xE1A0 :: 32 word)))) = lit ''E1A0''"
  by (simp add: numToString_def natToString.simps toUpperCase_def upperChar_def padStart_def
      digitChar_def lit_def)

lemma st0_payload:
  "generateQRValue st0 =
     lit ''000201010226390014A00000067701011101061234560205001005303KES5802KE5904Acme6304E1A0''"
proof -
  have "crc16ccitt (qrTextBeforeCrc st0) = lit ''E1A0''"
    by (simp only: crc16ccitt_def st0_text st0_register render_E1A0)
  then have "generateQRValue st0 = qrTextBeforeCrc st0 @ lit ''E1A0''"
    by (simp only: generateQRValue_valid [OF st0_valid])
  then show ?thesis by (simp add: st0_text lit_def)
qed

section \<open>The claims\<close>

subsection \<open>C1: declared lengths\<close>

text \<open>
  Claim C1, as stated: in every payload, every field declares in two digits the number
  of characters of its value, the GUID sub-field included. It fails. With an account
  number of 100 characters the payload is still built; the sub-field \<open>02\<close> then declares
  its length as \<open>100\<close>, in three digits, and the GUID sub-field, here as in every
  payload, declares 14 for a value of 16 characters.
\<close>

theorem tlv_lengths_counterexample:
  "validateNumber stLong (number stLong)
   \<and> generateQRValue stLong = concat (map serialize (payloadFields stLong))
   \<and> Field (lit ''02'') (lit ''100'') (accountNumber stLong) \<in> set (emittedFields stLong)
   \<and> \<not> twoDigitLength (Field (lit ''02'') (lit ''100'') (accountNumber stLong))
   \<and> guidField \<in> set (emittedFields stLong)
   \<and> \<not> twoDigitLength guidField
   \<and> \<not> list_all twoDigitLength (emittedFields stLong)"
proof -
  have b: "\<not> twoDigitLength (Field (lit ''02'') (lit ''100'') (accountNumber stLong))"
    by (simp add: twoDigitLength_def)
  have a: "Field (lit ''02'') (lit ''100'') (accountNumber stLong) \<in> set (emittedFields stLong)"
    unfolding stLong_prefix [symmetric]
    by (simp add: emittedFields_def merchantFields_def stLong_def)
  have g: "guidField \<in> set (emittedFields stLong)"
    by (rule guidField_emitted)
  have n: "\<not> list_all twoDigitLength (emittedFields stLong)"
    using guidField_emitted [of stLong] guidField_wrong by (auto simp add: list_all_iff)
  show ?thesis
    using a b g n guidField_wrong stLong_valid generateQRValue_fields [OF stLong_valid]
    by blast
qed

text \<open>
  Claim C1, amended. For every state whose number passes validation, the payload is the
  concatenation of the fields of \<open>payloadFields\<close>, the value of tag 26 is the
  concatenation of the fields of \<open>merchantFields\<close>, and every field other than the two
  literals \<open>0102\<close> and \<open>0014A000000677010111\<close> declares, in decimal digits, the number
  of characters of its value: in exactly two digits when the value has at most 99
  characters, in three or more when it is longer. This holds for tag 26 and its whole nested value.
  Nothing is said of the two literals.
\<close>

theorem tlv_lengths_amended:
  "validateNumber st (number st) \<Longrightarrow>
   generateQRValue st = concat (map serialize (payloadFields st))
   \<and> merchantInfo st (formatNumber st (number st)) =
       concat (map serialize (merchantFields st (formatNumber st (number st))))
   \<and> list_all (\<lambda>f. f = guidField \<or> f = initiationField \<or> paddedLength f) (emittedFields st)"
  by (simp add: generateQRValue_fields merchantInfo_fields emittedFields_def
      merchantFields_padded payloadFields_padded)

theorem tlv_lengths_amended_witness:
  "validateNumber st0 (number st0)
   \<and> generateQRValue st0 = concat (map serialize (payloadFields st0))
   \<and> merchantFields st0 (formatNumber st0 (number st0)) =
       [guidField, Field (lit ''01'') (lit ''06'') (lit ''123456''),
        Field (lit ''02'') (lit ''05'') (lit ''00100'')]
   \<and> list_all (\<lambda>f. f = guidField \<or> f = initiationField \<or> paddedLength f) (emittedFields st0)
   \<and> validateNumber stLong (number stLong)
   \<and> 99 < length (accountNumber stLong)
   \<and> list_all (\<lambda>f. f = guidField \<or> f = initiationField \<or> paddedLength f)
        (emittedFields stLong)"
proof -
  have l: "99 < length (accountNumber stLong)" by (simp add: stLong_def)
  have m: "merchantFields st0 (formatNumber st0 (number st0)) =
       [guidField, Field (lit ''01'') (lit ''06'') (lit ''123456''),
        Field (lit ''02'') (lit ''05'') (lit ''00100'')]"
    by code_simp
  show ?thesis
    using st0_valid m l stLong_valid tlv_lengths_amended [OF st0_valid]
      tlv_lengths_amended [OF stLong_valid]
    by blast
qed

subsection \<open>C2: the end-to-end scenario\<close>

text \<open>
  Claim C2, as stated: for the paybill \<open>123456\<close> with account \<open>00100\<close> and business name
  \<open>Acme\<close> the payload begins with \<open>000201010211\<close> and contains \<open>2619\<close> right before
  \<open>0014A0000006770101110106123456020500100\<close>. Neither holds: the payload is
  \<open>000201010226390014A00000067701011101061234560205001005303KES5802KE5904Acme6304E1A0\<close>.
  The nested value has 39 characters, so the template is headed \<open>2639\<close>; and the source
  writes \<open>0102\<close> for the point of initiation, with no \<open>11\<close> after it.
\<close>

theorem end_to_end_counterexample:
  "\<not> prefix (lit ''000201010211'') (generateQRValue st0)
   \<and> \<not> sublist (lit ''2619'' @ lit ''0014A0000006770101110106123456020500100'')
         (generateQRValue st0)"
  unfolding st0_payload by code_simp

text \<open>
  Claim C2, amended. For that input the payload begins with \<open>000201\<close>, and it ends with
  \<open>2639\<close>, then \<open>0014A0000006770101110106123456020500100\<close>, then
  \<open>5303KES5802KE5904Acme6304\<close>, then four upper-case hexadecimal digits, which are the
  checksum of everything before them. Nothing is said of what stands between \<open>000201\<close>
  and \<open>2639\<close>.
\<close>

theorem end_to_end_amended:
  "prefix (lit ''000201'') (generateQRValue st0)
   \<and> suffix (lit ''2639'' @ lit ''0014A0000006770101110106123456020500100''
              @ lit ''5303KES5802KE5904Acme6304''
              @ drop (length (generateQRValue st0) - 4) (generateQRValue st0))
        (generateQRValue st0)
   \<and> length (drop (length (generateQRValue st0) - 4) (generateQRValue st0)) = 4
   \<and> list_all isUpperHex (drop (length (generateQRValue st0) - 4) (generateQRValue st0))
   \<and> drop (length (generateQRValue st0) - 4) (generateQRValue st0) =
       crc16ccitt (take (length (generateQRValue st0) - 4) (generateQRValue st0))"
proof -
  let ?q = "qrTextBeforeCrc st0"
  have p: "generateQRValue st0 = ?q @ crc16ccitt ?q" by (rule generateQRValue_valid [OF st0_valid])
  have l: "length (crc16ccitt ?q) = 4" and h: "list_all isUpperHex (crc16ccitt ?q)"
    using crc16ccitt_shape [of ?q] by simp_all
  have d: "drop (length (generateQRValue st0) - 4) (generateQRValue st0) = crc16ccitt ?q"
    and t: "take (length (generateQRValue st0) - 4) (generateQRValue st0) = ?q"
    by (simp_all add: p l)
  have a: "prefix (lit ''000201'') (generateQRValue st0)"
    by (simp add: p st0_text lit_def)
  have "?q = lit ''0002010102'' @ lit ''2639'' @ lit ''0014A0000006770101110106123456020500100''
              @ lit ''5303KES5802KE5904Acme6304''"
    by (simp add: st0_text lit_def)
  then have "generateQRValue st0 =
      lit ''0002010102'' @ (lit ''2639'' @ lit ''0014A0000006770101110106123456020500100''
              @ lit ''5303KES5802KE5904Acme6304'' @ crc16ccitt ?q)"
    by (simp add: p)
  then have s: "suffix (lit ''2639'' @ lit ''0014A0000006770101110106123456020500100''
              @ lit ''5303KES5802KE5904Acme6304'' @ crc16ccitt ?q) (generateQRValue st0)"
    by (simp only: suffixI)
  show ?thesis unfolding d t using a s l h by simp
qed

subsection \<open>C3: where the checksum stands and what it covers\<close>

text \<open>
  Claim C3. For every state whose number passes validation, the payload has at least
  four characters, its last four characters are \<open>crc16ccitt\<close> of the payload without
  them, and that text is the one built before the checksum, which ends with the header
  \<open>6304\<close>.
\<close>

theorem checksum_placement:
  "validateNumber st (number st) \<Longrightarrow>
   4 \<le> length (generateQRValue st)
   \<and> drop (length (generateQRValue st) - 4) (generateQRValue st) =
       crc16ccitt (take (length (generateQRValue st) - 4) (generateQRValue st))
   \<and> take (length (generateQRValue st) - 4) (generateQRValue st) = qrTextBeforeCrc st
   \<and> suffix (lit ''6304'') (qrTextBeforeCrc st)"
proof -
  assume v: "validateNumber st (number st)"
  let ?q = "qrTextBeforeCrc st"
  have p: "generateQRValue st = ?q @ crc16ccitt ?q" using v by (rule generateQRValue_valid)
  have l: "length (crc16ccitt ?q) = 4" using crc16ccitt_shape [of ?q] by simp
  have s: "suffix (lit ''6304'') ?q"
    by (simp add: qrTextBeforeCrc_def Let_def suffix_def)
  show ?thesis using s by (simp add: p l)
qed

theorem checksum_placement_witness:
  "validateNumber st0 (number st0)
   \<and> drop (length (generateQRValue st0) - 4) (generateQRValue st0) =
       crc16ccitt (take (length (generateQRValue st0) - 4) (generateQRValue st0))
   \<and> take (length (generateQRValue st0) - 4) (generateQRValue st0) =
       lit ''000201010226390014A00000067701011101061234560205001005303KES5802KE5904Acme6304''"
  using checksum_placement [OF st0_valid] st0_valid by (simp add: st0_text)

subsection \<open>C4: the checksum is CRC-16/CCITT-FALSE\<close>

text \<open>
  Claim C4. For every string whose code units are all at most 255, the register that
  \<open>crc16ccitt\<close> computes on 32-bit integers is the 16-bit register of the reference
  algorithm run on the same bytes (initial value \<open>0xFFFF\<close>, each byte XORed into the
  high byte, eight shifts with the conditional XOR of \<open>0x1021\<close>), and the string it
  returns is the rendering of that register.
\<close>

theorem crc16ccitt_is_ccitt_false:
  "list_all (\<lambda>c. c \<le> 255) str \<Longrightarrow>
   crcRegister str = ucast (crc16_ccitt_false (map ucast str))
   \<and> map ucast (map ucast str :: 8 word list) = str
   \<and> crc16ccitt str =
       padStart 4 48 (toUpperCase (numToString 16 (uint (crc16_ccitt_false (map ucast str)))))"
proof -
  assume a: "list_all (\<lambda>c. c \<le> 255) str"
  have r: "crcRegister str = ucast (crc16_ccitt_false (map ucast str))"
    by (rule crcRegister_ref)
  have b: "map ucast (map ucast str :: 8 word list) = str"
    using a by (rule bytes_roundtrip)
  have f: "crc16ccitt str =
       padStart 4 48 (toUpperCase (numToString 16 (uint (crc16_ccitt_false (map ucast str)))))"
    by (simp only: crc16ccitt_def crcRegister_ref sint_ucast16)
  show ?thesis using r b f by blast
qed

theorem crc16ccitt_is_ccitt_false_witness:
  "list_all (\<lambda>c. c \<le> 255) (lit ''123456789'')
   \<and> crcRegister (lit ''123456789'') = ucast (crc16_ccitt_false (map ucast (lit ''123456789'')))
   \<and> crcRegister (lit ''123456789'') = 0x29B1"
proof -
  have a: "list_all (\<lambda>c. c \<le> 255) (lit ''123456789'')" by (simp add: lit_def)
  have v: "crcRegister (lit ''123456789'') = 0x29B1"
    by (simp add: crcRegister_def lit_def crcInner8 crcShift_def polynomial_def)
  show ?thesis using a v crc16ccitt_is_ccitt_false [OF a] by blast
qed

subsection \<open>C5: validation on the examples of the specification\<close>

text \<open>
  Claim C5. Whatever the payment type, the empty string is rejected. For a paybill
  \<open>123456\<close> is accepted and \<open>12345\<close> rejected; for a till \<open>12345\<close> and \<open>123456\<close> are
  accepted and \<open>1234\<close> rejected; for a phone \<open>0712345678\<close>, \<open>254712345678\<close> and
  \<open>712345678\<close> are accepted and \<open>0812345678\<close> is rejected. The rest of the state does
  not matter.
\<close>

theorem validateNumber_examples:
  "\<not> validateNumber (st\<lparr>paymentType := pt\<rparr>) []
   \<and> validateNumber (st\<lparr>paymentType := Paybill\<rparr>) (lit ''123456'')
   \<and> \<not> validateNumber (st\<lparr>paymentType := Paybill\<rparr>) (lit ''12345'')
   \<and> validateNumber (st\<lparr>paymentType := Till\<rparr>) (lit ''12345'')
   \<and> validateNumber (st\<lparr>paymentType := Till\<rparr>) (lit ''123456'')
   \<and> \<not> validateNumber (st\<lparr>paymentType := Till\<rparr>) (lit ''1234'')
   \<and> validateNumber (st\<lparr>paymentType := Phone\<rparr>) (lit ''0712345678'')
   \<and> validateNumber (st\<lparr>paymentType := Phone\<rparr>) (lit ''254712345678'')
   \<and> validateNumber (st\<lparr>paymentType := Phone\<rparr>) (lit ''712345678'')
   \<and> \<not> validateNumber (st\<lparr>paymentType := Phone\<rparr>) (lit ''0812345678'')"
  by (simp add: validate_eval)

theorem validateNumber_examples_witness:
  "\<not> validateNumber (st0\<lparr>paymentType := Till\<rparr>) []
   \<and> validateNumber (st0\<lparr>paymentType := Phone\<rparr>) (lit ''0712345678'')
   \<and> \<not> validateNumber (st0\<lparr>paymentType := Phone\<rparr>) (lit ''0812345678'')"
  using validateNumber_examples [of Till st0] by blast

subsection \<open>C6: normalisation of a phone number\<close>

text \<open>
  Claim C6. For a phone payment and a subscriber number \<open>s\<close> (nine digits, the first
  \<open>7\<close>), the three accepted forms \<open>254s\<close>, \<open>0s\<close> and \<open>s\<close> all normalise to \<open>254s\<close>;
  and normalising twice is normalising once, for these forms as for every other input.
\<close>

theorem formatNumber_idempotent_forms:
  "paymentType st = Phone \<Longrightarrow> isSubscriber s \<Longrightarrow>
   formatNumber st (lit ''254'' @ s) = lit ''254'' @ s
   \<and> formatNumber st (lit ''0'' @ s) = lit ''254'' @ s
   \<and> formatNumber st s = lit ''254'' @ s
   \<and> (\<forall>v. formatNumber st (formatNumber st v) = formatNumber st v)"
proof -
  assume p: "paymentType st = Phone" and s: "isSubscriber s"
  have d: "list_all isDigit s" and l: "length s = 9" using subscriber_digits [OF s] by simp_all
  obtain t where t: "s = 55 # t" using subscriber_first [OF s] by blast
  have a: "formatNumber st (lit ''254'' @ s) = lit ''254'' @ s"
    using d by (simp add: formatNumber_fixed lit254_digits startsWith_append)
  have z: "stripNonDigits (lit ''0'' @ s) = lit ''0'' @ s"
    using d by (simp add: stripNonDigits_id lit_def isDigit_def)
  have b: "formatNumber st (lit ''0'' @ s) = lit ''254'' @ s"
    unfolding formatNumber_def z using p by (simp add: startsWith_def lit_def)
  have c: "formatNumber st s = lit ''254'' @ s"
    unfolding formatNumber_def stripNonDigits_id [OF d] using p l t
    by (simp add: startsWith_def lit_def)
  show ?thesis using a b c by (simp add: formatNumber_idem)
qed

theorem formatNumber_idempotent_forms_witness:
  "paymentType stPhone = Phone \<and> isSubscriber (lit ''712345678'')
   \<and> formatNumber stPhone (lit ''254712345678'') = lit ''254712345678''
   \<and> formatNumber stPhone (lit ''0712345678'') = lit ''254712345678''
   \<and> formatNumber stPhone (lit ''712345678'') = lit ''254712345678''
   \<and> formatNumber stPhone (formatNumber stPhone (lit ''0712345678''))
       = formatNumber stPhone (lit ''0712345678'')"
proof -
  have p: "paymentType stPhone = Phone" by (simp add: stPhone_def)
  have s: "isSubscriber (lit ''712345678'')"
    by (simp add: isSubscriber_def digitsExactly_def startsWith_def isDigit_def lit_def)
  show ?thesis using p s formatNumber_idempotent_forms [OF p s] by (simp add: lit_def)
qed

subsection \<open>C7: when the builder gives no payload\<close>

text \<open>
  Claim C7. \<open>generateQRValue\<close> returns the empty string, its answer for "no payload",
  exactly when the number is empty or its cleaned digits do not match the pattern of the
  payment type. So every number that passes validation gives a payload, and nothing
  else in the builder fails.
\<close>

theorem generateQRValue_empty_iff:
  "generateQRValue st = [] \<longleftrightarrow>
     number st = [] \<or> \<not> matchesPattern (paymentType st) (stripNonDigits (number st))"
  by (auto simp add: generateQRValue_def Let_def qrTextBeforeCrc_nonempty validateNumber_pattern)

theorem generateQRValue_empty_iff_witness:
  "generateQRValue st0 \<noteq> []
   \<and> generateQRValue (st0\<lparr>number := []\<rparr>) = []
   \<and> generateQRValue (st0\<lparr>number := lit ''12345''\<rparr>) = []"
  using generateQRValue_empty_iff [of st0] generateQRValue_empty_iff [of "st0\<lparr>number := []\<rparr>"]
    generateQRValue_empty_iff [of "st0\<lparr>number := lit ''12345''\<rparr>"]
  by (simp add: st0_def stripNonDigits_def isDigit_def digitsExactly_def lit_def)

subsection \<open>C8: the shape of a checksum\<close>

text \<open>
  Claim C8. For every string, of any code units, \<open>crc16ccitt\<close> returns exactly four
  characters, each an upper-case hexadecimal digit.
\<close>

theorem crc16ccitt_four_upper_hex:
  "length (crc16ccitt s) = 4 \<and> list_all isUpperHex (crc16ccitt s)"
  by (rule crc16ccitt_shape)

theorem crc16ccitt_four_upper_hex_witness:
  "length (crc16ccitt [0x20AC, 0xFFFF, 0]) = 4 \<and> list_all isUpperHex (crc16ccitt [0x20AC, 0xFFFF, 0])"
  using crc16ccitt_four_upper_hex [of "[0x20AC, 0xFFFF, 0]"] by simp

subsection \<open>C9: the payload is a function of the four inputs\<close>

text \<open>
  Claim C9. Two states of the component that agree on the payment type, the number,
  the account number and the business name give the same result of \<open>generateQRValue\<close>,
  a payload or the empty string: the builder reads nothing else, neither the error
  message nor any other part of the state.
\<close>

theorem generateQRValue_depends_on_inputs:
  assumes "paymentType s1 = paymentType s2" and "number s1 = number s2"
    and "accountNumber s1 = accountNumber s2" and "businessName s1 = businessName s2"
  shows "generateQRValue s1 = generateQRValue s2"
  unfolding generateQRValue_def
  using assms qrTextBeforeCrc_reads [OF assms] validateNumber_reads [of s1 s2]
  by (simp add: Let_def cong: if_cong)

theorem generateQRValue_depends_on_inputs_witness:
  "generateQRValue (st0\<lparr>error := Some (lit ''Please enter a valid number'')\<rparr>)
     = generateQRValue st0
   \<and> generateQRValue (stPhone\<lparr>error := Some []\<rparr>) = generateQRValue stPhone"
  using generateQRValue_depends_on_inputs
      [of "st0\<lparr>error := Some (lit ''Please enter a valid number'')\<rparr>" st0]
    generateQRValue_depends_on_inputs [of "stPhone\<lparr>error := Some []\<rparr>" stPhone]
  by simp

subsection \<open>C10: free text of more than 99 characters\<close>

text \<open>
  Claim C10. For a paybill whose number passes validation, a payload is built whatever
  the lengths of the account number and of the business name. An account number of more
  than 99 characters is in the payload whole, after the tag \<open>02\<close> and a length of three
  or more decimal digits; so is a business name of more than 99 characters, after the tag
  \<open>59\<close> and before the checksum header.
\<close>

theorem overlong_fields_not_guarded:
  "paymentType st = Paybill \<Longrightarrow> validateNumber st (number st) \<Longrightarrow>
   generateQRValue st \<noteq> []
   \<and> (99 < length (accountNumber st) \<longrightarrow>
        3 \<le> length (lengthPrefix (accountNumber st))
        \<and> list_all isDigit (lengthPrefix (accountNumber st))
        \<and> decimalValue (lengthPrefix (accountNumber st)) = length (accountNumber st)
        \<and> (\<exists>pre post. generateQRValue st =
              pre @ lit ''02'' @ lengthPrefix (accountNumber st) @ accountNumber st @ post))
   \<and> (99 < length (businessName st) \<longrightarrow>
        3 \<le> length (lengthPrefix (businessName st))
        \<and> list_all isDigit (lengthPrefix (businessName st))
        \<and> decimalValue (lengthPrefix (businessName st)) = length (businessName st)
        \<and> (\<exists>pre. generateQRValue st =
              pre @ lit ''59'' @ lengthPrefix (businessName st) @ businessName st
                  @ lit ''6304'' @ crc16ccitt (qrTextBeforeCrc st)))"
proof -
  assume p: "paymentType st = Paybill" and v: "validateNumber st (number st)"
  let ?q = "qrTextBeforeCrc st"
  let ?f = "formatNumber st (number st)"
  let ?mi = "merchantInfo st ?f"
  have g: "generateQRValue st = ?q @ crc16ccitt ?q" using v by (rule generateQRValue_valid)
  have ne: "generateQRValue st \<noteq> []" using g qrTextBeforeCrc_nonempty [of st] by simp
  have acc: "\<exists>pre post. generateQRValue st =
      pre @ lit ''02'' @ lengthPrefix (accountNumber st) @ accountNumber st @ post"
    if "99 < length (accountNumber st)"
  proof -
    have n: "accountNumber st \<noteq> []" using that by auto
    let ?pre = "lit ''000201'' @ lit ''0102'' @ lit ''26'' @ lengthPrefix ?mi @
                lit ''00'' @ lit ''14'' @ lit ''A000000677010111'' @
                lit ''01'' @ lengthPrefix ?f @ ?f"
    let ?post = "lit ''5303KES'' @ lit ''5802KE'' @
                 (if businessName st \<noteq> [] then
                    lit ''59'' @ lengthPrefix (businessName st) @ businessName st else [])
                 @ lit ''6304'' @ crc16ccitt ?q"
    have m: "?mi = lit ''00'' @ lit ''14'' @ lit ''A000000677010111'' @
                lit ''01'' @ lengthPrefix ?f @ ?f @
                lit ''02'' @ lengthPrefix (accountNumber st) @ accountNumber st"
      using p n by (simp add: merchantInfo_def)
    have "?q = lit ''000201'' @ lit ''0102'' @ lit ''26'' @ lengthPrefix ?mi @ ?mi @
               lit ''5303KES'' @ lit ''5802KE'' @
                 (if businessName st \<noteq> [] then
                    lit ''59'' @ lengthPrefix (businessName st) @ businessName st else [])
                 @ lit ''6304''"
      by (simp add: qrTextBeforeCrc_def Let_def)
    then have "generateQRValue st =
        ?pre @ lit ''02'' @ lengthPrefix (accountNumber st) @ accountNumber st @ ?post"
      using m g by simp
    then show ?thesis by blast
  qed
  have bn: "\<exists>pre. generateQRValue st =
      pre @ lit ''59'' @ lengthPrefix (businessName st) @ businessName st
          @ lit ''6304'' @ crc16ccitt ?q"
    if "99 < length (businessName st)"
  proof -
    have n: "businessName st \<noteq> []" using that by auto
    have "generateQRValue st =
       (lit ''000201'' @ lit ''0102'' @ lit ''26'' @ lengthPrefix ?mi @ ?mi @
               lit ''5303KES'' @ lit ''5802KE'') @
         lit ''59'' @ lengthPrefix (businessName st) @ businessName st
          @ lit ''6304'' @ crc16ccitt ?q"
      using n by (simp add: g qrTextBeforeCrc_def [of st] Let_def)
    then show ?thesis by blast
  qed
  show ?thesis using ne acc bn
    by (simp add: lengthPrefix_long lengthPrefix_digits lengthPrefix_value)
qed

theorem overlong_fields_not_guarded_witness:
  "paymentType stLong = Paybill \<and> validateNumber stLong (number stLong)
   \<and> 99 < length (accountNumber stLong)
   \<and> lengthPrefix (accountNumber stLong) = lit ''100''
   \<and> (\<exists>pre post. generateQRValue stLong =
          pre @ lit ''02'' @ lit ''100'' @ accountNumber stLong @ post)
   \<and> paymentType stLongName = Paybill \<and> validateNumber stLongName (number stLongName)
   \<and> 99 < length (businessName stLongName)
   \<and> lengthPrefix (businessName stLongName) = lit ''100''
   \<and> (\<exists>pre. generateQRValue stLongName =
          pre @ lit ''59'' @ lit ''100'' @ businessName stLongName
              @ lit ''6304'' @ crc16ccitt (qrTextBeforeCrc stLongName))"
proof -
  have p1: "paymentType stLong = Paybill" and l1: "99 < length (accountNumber stLong)"
    by (simp_all add: stLong_def)
  have p2: "paymentType stLongName = Paybill" and l2: "99 < length (businessName stLongName)"
    by (simp_all add: stLongName_def)
  have v2: "validateNumber stLongName (number stLongName)"
    by (simp add: stLongName_def validate_eval)
  have x2: "lengthPrefix (businessName stLongName) = lit ''100''"
    by (simp add: stLongName_def lengthPrefix_eq padStart_def natToString.simps lit_def
        digitChar_def)
  show ?thesis
    using overlong_fields_not_guarded [OF p1 stLong_valid]
      overlong_fields_not_guarded [OF p2 v2] p1 l1 p2 l2 v2 stLong_valid
    unfolding stLong_prefix x2 by blast
qed

end
